theory Spec2Isabelle
  imports Main
begin

section \<open>Strings\<close>

text \<open>
  A JavaScript string is modelled as a \<^typ>\<open>string\<close>, one character per code unit; the
  model covers the strings whose code units are below 256. All patterns the module
  searches for are ASCII.
\<close>

text \<open>
  \<^verbatim>\<open>s.replace(/pat/g, rep)\<close> for a literal, non-empty pattern and a replacement without
  \<^verbatim>\<open>$\<close>: a left-to-right scan that replaces each match and resumes after it.
\<close>

fun replaceAll :: "string \<Rightarrow> string \<Rightarrow> string \<Rightarrow> string" where
  "replaceAll pat rep [] = []"
| "replaceAll pat rep (c # cs) =
     (if pat \<noteq> [] \<and> take (length pat) (c # cs) = pat
      then rep @ replaceAll pat rep (drop (length pat) (c # cs))
      else c # replaceAll pat rep cs)"

text \<open>\<^verbatim>\<open>s.split(sep)\<close> for a one-character separator: never an empty array.\<close>

function split_on :: "char \<Rightarrow> string \<Rightarrow> string list" where
  "split_on sep s =
     takeWhile (\<lambda>x. x \<noteq> sep) s #
       (case dropWhile (\<lambda>x. x \<noteq> sep) s of [] \<Rightarrow> [] | c # rest \<Rightarrow> split_on sep rest)"
  by pat_completeness auto
termination
proof (relation "measure (\<lambda>(sep, s). length s)", goal_cases)
  case 1
  show ?case by simp
next
  case (2 sep s c rest)
  have "length (dropWhile (\<lambda>x. x \<noteq> sep) s) \<le> length s"
    by (rule length_dropWhile_le)
  with 2 show ?case by simp
qed

declare split_on.simps [simp del]

text \<open>\<^verbatim>\<open>xs[0]\<close> and \<^verbatim>\<open>xs.pop()\<close>: \<^verbatim>\<open>undefined\<close> on an empty array is \<open>None\<close>.\<close>

definition at0 :: "'a list \<Rightarrow> 'a option" where
  "at0 xs = (case xs of [] \<Rightarrow> None | x # _ \<Rightarrow> Some x)"

definition pop :: "'a list \<Rightarrow> 'a option" where
  "pop xs = (if xs = [] then None else Some (last xs))"

text \<open>\<^verbatim>\<open>s.trim()\<close>, with the white space and line terminators below code unit 256.\<close>

definition isWhiteSpace :: "char \<Rightarrow> bool" where
  "isWhiteSpace c =
     (c \<in> set [CHR 0x09, CHR 0x0A, CHR 0x0B, CHR 0x0C, CHR 0x0D, CHR 0x20, CHR 0xA0])"

definition trim :: "string \<Rightarrow> string" where
  "trim s = rev (dropWhile isWhiteSpace (rev (dropWhile isWhiteSpace s)))"

definition isLineTerminator :: "char \<Rightarrow> bool" where
  "isLineTerminator c = (c = CHR 0x0A \<or> c = CHR 0x0D)"

text \<open>A thrown exception is a value; \<open>bindE\<close> sequences two steps that may throw.\<close>

datatype error = TypeError

definition bindE :: "error + 'a \<Rightarrow> ('a \<Rightarrow> error + 'b) \<Rightarrow> error + 'b" where
  "bindE m f = (case m of Inl e \<Rightarrow> Inl e | Inr a \<Rightarrow> f a)"

section \<open>The token tree of the Markdown library\<close>

text \<open>
  The tokens of the \<^verbatim>\<open>marked\<close> library, one constructor per \<^verbatim>\<open>type\<close> tag, with the
  fields the module reads:
  \<^item> \<open>Code lang text\<close> (\<open>lang\<close> may be undefined), \<open>Heading depth text tokens\<close>,
    \<open>Blockquote text tokens\<close>, \<open>Paragraph text tokens\<close>, \<open>Html text\<close>;
  \<^item> \<open>Table header rows\<close>, every cell given by its \<open>tokens\<close>;
  \<^item> \<open>List ordered start items\<close>, \<open>start\<close> being \<open>None\<close> for the empty string, every item
    given by its \<open>tokens\<close>;
  \<^item> \<open>Text text tokens\<close> (\<open>tokens\<close> may be undefined), \<open>Escape text\<close>, \<open>Codespan text\<close>,
    \<open>Strong tokens\<close>, \<open>Em tokens\<close>, \<open>Del tokens\<close>, \<open>Link href title tokens\<close>,
    \<open>Image href title text\<close> (a title may be null);
  \<^item> \<open>Space\<close>, \<open>Hr\<close>, \<open>Def\<close>, \<open>Br\<close> have no \<open>text\<close> property;
  \<^item> \<open>Other text\<close> is a token of any other type, with its \<open>text\<close> property if it has one.
\<close>

datatype token =
    Space
  | Code "string option" string
  | Heading int string "token list"
  | Table "token list list" "token list list list"
  | Hr
  | Blockquote string "token list"
  | List bool "int option" "token list list"
  | Html string
  | Def
  | Paragraph string "token list"
  | Text string "token list option"
  | Escape string
  | Strong "token list"
  | Em "token list"
  | Del "token list"
  | Codespan string
  | Link string "string option" "token list"
  | Image string "string option" string
  | Br
  | Other "string option"

text \<open>
  The library itself is a parameter of the model: its lexer, and the output of its
  built-in renderer for every token kind the module does not override. A built-in
  template receives the token and the rendering of the token's children; \<open>ctx\<close> tells
  whether the token stands among blocks or inside inline content.

  The fields describe the calls in which the library returns. An exception raised inside
  the library, and the \<^verbatim>\<open>RangeError\<close> of a call stack exhausted by deeply nested input, have
  no value here: the theorems below say what the module makes of a token tree the lexer
  has returned, and none of them says that the library returns.
\<close>

datatype ctx = Block | Inline

record marked =
  lexer :: "string \<Rightarrow> token list"
  render_leaf :: "ctx \<Rightarrow> token \<Rightarrow> string"
  render_wrapped :: "ctx \<Rightarrow> token \<Rightarrow> string \<Rightarrow> string"
  render_list :: "token \<Rightarrow> string list \<Rightarrow> string"
  render_table :: "token \<Rightarrow> string list \<Rightarrow> string list list \<Rightarrow> string"

section \<open>Storage format\<close>

definition escapeXml :: "string \<Rightarrow> string" where
  "escapeXml text =
     replaceAll [CHR 0x27] ''&apos;''
       (replaceAll [CHR 0x22] ''&quot;''
         (replaceAll ''>'' ''&gt;''
           (replaceAll ''<'' ''&lt;''
             (replaceAll ''&'' ''&amp;'' text))))"

text \<open>
  \<^verbatim>\<open>/\.md(?:#.*)?$/.test(href)\<close>: somewhere \<^verbatim>\<open>.md\<close> is followed by the end of the string,
  or by \<^verbatim>\<open>#\<close> and a rest without line terminator.
\<close>

definition mdTail :: "string \<Rightarrow> bool" where
  "mdTail r =
     (case r of [] \<Rightarrow> True | c # f \<Rightarrow> c = CHR ''#'' \<and> list_all (\<lambda>x. \<not> isLineTerminator x) f)"

fun testMdLink :: "string \<Rightarrow> bool" where
  "testMdLink [] = False"
| "testMdLink (c # cs) =
     ((take 3 (c # cs) = ''.md'' \<and> mdTail (drop 3 (c # cs))) \<or> testMdLink cs)"

text \<open>
  \<open>U href\<close> stands for \<^verbatim>\<open>new URL(href, "http://dummy").host\<close>, \<open>None\<close> when the constructor
  throws; the \<^verbatim>\<open>catch\<close> block swallows that exception.
\<close>

definition isMarkdownFileLink :: "(string \<Rightarrow> string option) \<Rightarrow> string \<Rightarrow> bool" where
  "isMarkdownFileLink U href =
     (case U href of
        Some host \<Rightarrow> if host \<noteq> ''dummy'' then False else testMdLink href
      | None \<Rightarrow> testMdLink href)"

text \<open>\<^verbatim>\<open>s.replace(/\.md$/, "")\<close>.\<close>

definition stripMdSuffix :: "string \<Rightarrow> string" where
  "stripMdSuffix s =
     (if 3 \<le> length s \<and> drop (length s - 3) s = ''.md'' then take (length s - 3) s else s)"

text \<open>A method call on \<^verbatim>\<open>undefined\<close> throws a \<^verbatim>\<open>TypeError\<close>.\<close>

definition mdHrefToPageTitle :: "string \<Rightarrow> error + string" where
  "mdHrefToPageTitle href =
     (case at0 (split_on (CHR ''#'') href) of
        None \<Rightarrow> Inl TypeError
      | Some withoutFragment \<Rightarrow>
          (case pop (split_on (CHR ''/'') withoutFragment) of
             None \<Rightarrow> Inl TypeError
           | Some name \<Rightarrow> Inr (stripMdSuffix name)))"

definition escapeCdata :: "string \<Rightarrow> string" where
  "escapeCdata text = replaceAll '']]>'' '']]]]><![CDATA[>'' text"

subsection \<open>The renderer overrides\<close>

definition code :: "string option \<Rightarrow> string \<Rightarrow> string" where
  "code lang txt =
     (let escapedText = escapeCdata txt;
          langParam = (case lang of
                         None \<Rightarrow> []
                       | Some l \<Rightarrow>
                           if l \<noteq> []
                           then ''<ac:parameter ac:name=\"language\">'' @ escapeXml l @
                                ''</ac:parameter>''
                           else [])
      in ''<ac:structured-macro ac:name=\"code\">'' @
         langParam @
         ''<ac:plain-text-body><![CDATA['' @ escapedText @ '']]></ac:plain-text-body>'' @
         ''</ac:structured-macro>\<newline>'')"

definition image_macro :: "string \<Rightarrow> string option \<Rightarrow> string \<Rightarrow> string" where
  "image_macro href title alt =
     (let altAttr = (if alt \<noteq> [] then '' ac:alt=\"'' @ escapeXml alt @ ''\"'' else []);
          titleAttr = (case title of
                         None \<Rightarrow> []
                       | Some ttl \<Rightarrow>
                           if ttl \<noteq> [] then '' ac:title=\"'' @ escapeXml ttl @ ''\"'' else [])
      in ''<ac:image'' @ altAttr @ titleAttr @ ''>'' @
         ''<ri:url ri:value=\"'' @ escapeXml href @ ''\" />'' @
         ''</ac:image>'')"

text \<open>
  The \<^verbatim>\<open>link\<close> override; \<open>parseInl\<close> is \<^verbatim>\<open>this.parser.parseInline\<close>. The result \<open>None\<close> is
  the \<^verbatim>\<open>false\<close> that makes the library fall back to its built-in link renderer.
\<close>

definition link :: "(string \<Rightarrow> string option) \<Rightarrow> (token list \<Rightarrow> error + string) \<Rightarrow>
    string \<Rightarrow> string option \<Rightarrow> token list \<Rightarrow> error + string option" where
  "link U parseInl href title tokens =
     (if href \<noteq> [] \<and> isMarkdownFileLink U href
      then bindE (mdHrefToPageTitle href) (\<lambda>pageTitle.
           bindE (parseInl tokens) (\<lambda>linkBody.
             let titleAttr = (case title of
                                None \<Rightarrow> []
                              | Some ttl \<Rightarrow>
                                  if ttl \<noteq> [] then '' ac:title=\"'' @ escapeXml ttl @ ''\"''
                                  else [])
             in Inr (Some (''<ac:link'' @ titleAttr @ ''>'' @
                           ''<ri:page ri:content-title=\"'' @ escapeXml pageTitle @ ''\" />'' @
                           ''<ac:link-body>'' @ linkBody @ ''</ac:link-body>'' @
                           ''</ac:link>''))))
      else Inr None)"

definition hr :: string where
  "hr = ''<hr />\<newline>''"

lemma link_cong [fundef_cong]:
  "href = href' \<Longrightarrow> title = title' \<Longrightarrow> tokens = tokens' \<Longrightarrow> U = U' \<Longrightarrow>
   f tokens' = g tokens' \<Longrightarrow>
   link U f href title tokens = link U' g href' title' tokens'"
  by (simp add: link_def)

subsection \<open>The library's parser, with the overrides installed\<close>

text \<open>
  The parser renders the tokens of a list in order and concatenates the results. A
  \<open>Code\<close>, \<open>Hr\<close> or \<open>Image\<close> token is rendered by the module's override; a \<open>Link\<close> token by
  the override, or by the built-in template when the override returns \<^verbatim>\<open>false\<close>; every
  other token by the built-in template. \<open>renderTokens M U Block\<close> is \<^verbatim>\<open>parser.parse\<close> and
  \<open>renderTokens M U Inline\<close> is \<^verbatim>\<open>parser.parseInline\<close>.
\<close>

function (sequential)
  renderTokens :: "marked \<Rightarrow> (string \<Rightarrow> string option) \<Rightarrow> ctx \<Rightarrow> token list \<Rightarrow> error + string"
and render :: "marked \<Rightarrow> (string \<Rightarrow> string option) \<Rightarrow> ctx \<Rightarrow> token \<Rightarrow> error + string"
and renderItems :: "marked \<Rightarrow> (string \<Rightarrow> string option) \<Rightarrow> token list list \<Rightarrow> error + string list"
and renderCells :: "marked \<Rightarrow> (string \<Rightarrow> string option) \<Rightarrow> token list list \<Rightarrow> error + string list"
and renderRows ::
  "marked \<Rightarrow> (string \<Rightarrow> string option) \<Rightarrow> token list list list \<Rightarrow> error + string list list"
where
  "renderTokens M U c [] = Inr []"
| "renderTokens M U c (t # ts) =
     bindE (render M U c t) (\<lambda>out. bindE (renderTokens M U c ts) (\<lambda>rest. Inr (out @ rest)))"
| "render M U c (Code lang txt) = Inr (code lang txt)"
| "render M U c Hr = Inr hr"
| "render M U c (Image href title alt) = Inr (image_macro href title alt)"
| "render M U c (Link href title toks) =
     bindE (link U (renderTokens M U Inline) href title toks) (\<lambda>r.
       case r of
         Some out \<Rightarrow> Inr out
       | None \<Rightarrow> bindE (renderTokens M U Inline toks) (\<lambda>body.
                   Inr (render_wrapped M c (Link href title toks) body)))"
| "render M U c (Heading depth txt toks) =
     bindE (renderTokens M U Inline toks) (\<lambda>body.
       Inr (render_wrapped M c (Heading depth txt toks) body))"
| "render M U c (Paragraph txt toks) =
     bindE (renderTokens M U Inline toks) (\<lambda>body.
       Inr (render_wrapped M c (Paragraph txt toks) body))"
| "render M U c (Blockquote txt toks) =
     bindE (renderTokens M U Block toks) (\<lambda>body.
       Inr (render_wrapped M c (Blockquote txt toks) body))"
| "render M U c (Strong toks) =
     bindE (renderTokens M U Inline toks) (\<lambda>body. Inr (render_wrapped M c (Strong toks) body))"
| "render M U c (Em toks) =
     bindE (renderTokens M U Inline toks) (\<lambda>body. Inr (render_wrapped M c (Em toks) body))"
| "render M U c (Del toks) =
     bindE (renderTokens M U Inline toks) (\<lambda>body. Inr (render_wrapped M c (Del toks) body))"
| "render M U c (Text txt (Some toks)) =
     bindE (renderTokens M U Inline toks) (\<lambda>body.
       Inr (render_wrapped M c (Text txt (Some toks)) body))"
| "render M U c (List ordered start items) =
     bindE (renderItems M U items) (\<lambda>bodies.
       Inr (render_list M (List ordered start items) bodies))"
| "render M U c (Table header rows) =
     bindE (renderCells M U header) (\<lambda>hs.
       bindE (renderRows M U rows) (\<lambda>rs. Inr (render_table M (Table header rows) hs rs)))"
| "render M U c t = Inr (render_leaf M c t)"
| "renderItems M U [] = Inr []"
| "renderItems M U (item # items) =
     bindE (renderTokens M U Block item) (\<lambda>out.
       bindE (renderItems M U items) (\<lambda>rest. Inr (out # rest)))"
| "renderCells M U [] = Inr []"
| "renderCells M U (cell # cells) =
     bindE (renderTokens M U Inline cell) (\<lambda>out.
       bindE (renderCells M U cells) (\<lambda>rest. Inr (out # rest)))"
| "renderRows M U [] = Inr []"
| "renderRows M U (row # rows) =
     bindE (renderCells M U row) (\<lambda>out.
       bindE (renderRows M U rows) (\<lambda>rest. Inr (out # rest)))"
  by pat_completeness auto
termination
  by (relation "measure (\<lambda>x. case x of
        Inl (Inl (M, U, c, ts)) \<Rightarrow> size_list size ts
      | Inl (Inr (M, U, c, t)) \<Rightarrow> size t
      | Inr (Inl (M, U, items)) \<Rightarrow> size_list (size_list size) items
      | Inr (Inr (Inl (M, U, cells))) \<Rightarrow> size_list (size_list size) cells
      | Inr (Inr (Inr (M, U, rows))) \<Rightarrow> size_list (size_list (size_list size)) rows)")
    simp_all


definition parseInline :: "marked \<Rightarrow> (string \<Rightarrow> string option) \<Rightarrow> token list \<Rightarrow> error + string" where
  "parseInline M U tokens = renderTokens M U Inline tokens"


section \<open>Atlassian Document Format\<close>

text \<open>
  An \<^verbatim>\<open>attrs\<close> object is an association list in insertion order; an absent optional
  property of a node or mark is \<open>None\<close>.
\<close>

datatype attr_value =
    AStr string
  | ANum int
  | ABool bool
  | AObj "(string \<times> attr_value) list"

datatype adf_mark =
  AdfMark (mark_type: string) (mark_attrs: "(string \<times> attr_value) list option")

datatype adf_node =
  AdfNode (node_type: string)
          (attrs: "(string \<times> attr_value) list option")
          (content: "adf_node list option")
          (node_text: "string option")
          (marks: "adf_mark list option")

record adf_document =
  doc_type :: string
  doc_content :: "adf_node list"
  doc_version :: int

subsection \<open>Identifier generation\<close>

text \<open>
  \<^verbatim>\<open>randomUUID()\<close> is the only effect of the module. \<open>G n\<close> is the identifier the
  platform's generator hands out at its \<open>n\<close>-th call, and the state of a computation is the
  number of calls made so far.
\<close>

type_synonym 'a gen = "nat \<Rightarrow> 'a \<times> nat"

definition returnG :: "'a \<Rightarrow> 'a gen" where
  "returnG x = (\<lambda>s. (x, s))"

definition bindG :: "'a gen \<Rightarrow> ('a \<Rightarrow> 'b gen) \<Rightarrow> 'b gen" where
  "bindG m f = (\<lambda>s. case m s of (a, s') \<Rightarrow> f a s')"

definition randomUUID :: "(nat \<Rightarrow> string) \<Rightarrow> string gen" where
  "randomUUID G = (\<lambda>s. (G s, Suc s))"

definition MERMAID_EXTENSION_KEY :: string where
  "MERMAID_EXTENSION_KEY =
     ''23392b90-4271-4239-98ca-a3e96c663cbb/63d4d207-ac2f-4273-865c-0240d37f044a/static/mermaid-diagram''"

definition buildMermaidExtensionNode :: "(nat \<Rightarrow> string) \<Rightarrow> adf_node gen" where
  "buildMermaidExtensionNode G =
     bindG (randomUUID G) (\<lambda>localId.
       returnG (AdfNode ''extension''
                  (Some [(''extensionType'', AStr ''com.atlassian.ecosystem''),
                         (''extensionKey'', AStr MERMAID_EXTENSION_KEY),
                         (''parameters'', AObj [(''localId'', AStr localId)]),
                         (''localId'', AStr localId)])
                  None None None))"

subsection \<open>Inline tokens\<close>

text \<open>A text node; \<^verbatim>\<open>marks\<close> is set only when the active mark list is not empty.\<close>

definition textNode :: "string \<Rightarrow> adf_mark list \<Rightarrow> adf_node" where
  "textNode txt mks =
     AdfNode ''text'' None None (Some txt) (if mks \<noteq> [] then Some mks else None)"

text \<open>
  \<open>convertInlineToken\<close> is the body of the loop of \<^verbatim>\<open>convertInlineTokens\<close>. The last
  equations are the \<^verbatim>\<open>default\<close> branch: a token of another type gives a text node when it
  has a \<^verbatim>\<open>text\<close> property, and nothing otherwise.
\<close>

fun convertInlineTokens :: "token list \<Rightarrow> adf_mark list \<Rightarrow> adf_node list"
and convertInlineToken :: "token \<Rightarrow> adf_mark list \<Rightarrow> adf_node list" where
  "convertInlineTokens [] mks = []"
| "convertInlineTokens (t # ts) mks = convertInlineToken t mks @ convertInlineTokens ts mks"
| "convertInlineToken (Text txt toks) mks = [textNode txt mks]"
| "convertInlineToken (Escape txt) mks = [textNode txt mks]"
| "convertInlineToken (Strong toks) mks = convertInlineTokens toks (mks @ [AdfMark ''strong'' None])"
| "convertInlineToken (Em toks) mks = convertInlineTokens toks (mks @ [AdfMark ''em'' None])"
| "convertInlineToken (Del toks) mks = convertInlineTokens toks (mks @ [AdfMark ''strike'' None])"
| "convertInlineToken (Codespan txt) mks =
     [AdfNode ''text'' None None (Some txt) (Some (mks @ [AdfMark ''code'' None]))]"
| "convertInlineToken (Link href title toks) mks =
     convertInlineTokens toks
       (mks @ [AdfMark ''link''
                 (Some ((''href'', AStr href) #
                    (case title of
                       None \<Rightarrow> []
                     | Some ttl \<Rightarrow> if ttl \<noteq> [] then [(''title'', AStr ttl)] else [])))])"
| "convertInlineToken (Image href title alt) mks =
     [AdfNode ''text'' None None (Some (if alt \<noteq> [] then alt else href))
        (Some (mks @ [AdfMark ''link'' (Some [(''href'', AStr href)])]))]"
| "convertInlineToken Br mks = [AdfNode ''hardBreak'' None None None None]"
| "convertInlineToken (Code lang txt) mks = [textNode txt mks]"
| "convertInlineToken (Heading depth txt toks) mks = [textNode txt mks]"
| "convertInlineToken (Blockquote txt toks) mks = [textNode txt mks]"
| "convertInlineToken (Html txt) mks = [textNode txt mks]"
| "convertInlineToken (Paragraph txt toks) mks = [textNode txt mks]"
| "convertInlineToken (Other (Some txt)) mks = [textNode txt mks]"
| "convertInlineToken (Other None) mks = []"
| "convertInlineToken Space mks = []"
| "convertInlineToken (Table header rows) mks = []"
| "convertInlineToken Hr mks = []"
| "convertInlineToken (List ordered start items) mks = []"
| "convertInlineToken Def mks = []"

subsection \<open>Blocks without nested blocks\<close>

definition convertHeading :: "int \<Rightarrow> token list \<Rightarrow> adf_node" where
  "convertHeading depth toks =
     AdfNode ''heading'' (Some [(''level'', ANum depth)])
       (Some (convertInlineTokens toks [])) None None"

definition isImage :: "token \<Rightarrow> bool" where
  "isImage t = (case t of Image href title alt \<Rightarrow> True | _ \<Rightarrow> False)"

definition isBlankText :: "token \<Rightarrow> bool" where
  "isBlankText t = (case t of Text txt toks \<Rightarrow> trim txt = [] | _ \<Rightarrow> False)"

definition isImageOnlyParagraph :: "token list \<Rightarrow> bool" where
  "isImageOnlyParagraph tokens =
     (let nonSpaceTokens = filter (\<lambda>t. \<not> isBlankText t) tokens
      in nonSpaceTokens \<noteq> [] \<and> list_all isImage nonSpaceTokens)"

text \<open>The function is only ever applied to image tokens.\<close>

fun convertImageToMediaSingle :: "token \<Rightarrow> adf_node" where
  "convertImageToMediaSingle (Image href title alt) =
     AdfNode ''mediaSingle'' (Some [(''layout'', AStr ''center'')])
       (Some [AdfNode ''media''
                (Some ([(''type'', AStr ''external''), (''url'', AStr href)] @
                       (if alt \<noteq> [] then [(''alt'', AStr alt)] else [])))
                None None None])
       None None"
| "convertImageToMediaSingle t =
     AdfNode ''mediaSingle'' (Some [(''layout'', AStr ''center'')])
       (Some [AdfNode ''media'' (Some [(''type'', AStr ''external'')]) None None None])
       None None"

definition convertParagraphNodes :: "token list \<Rightarrow> adf_node list" where
  "convertParagraphNodes inlineTokens =
     (if isImageOnlyParagraph inlineTokens
      then map convertImageToMediaSingle (filter isImage inlineTokens)
      else [AdfNode ''paragraph'' None (Some (convertInlineTokens inlineTokens [])) None None])"

definition convertCodeBlock :: "(nat \<Rightarrow> string) \<Rightarrow> string option \<Rightarrow> string \<Rightarrow> adf_node list gen" where
  "convertCodeBlock G lang txt =
     (let node = AdfNode ''codeBlock''
                   (Some (case lang of
                            None \<Rightarrow> []
                          | Some l \<Rightarrow> if l \<noteq> [] then [(''language'', AStr l)] else []))
                   (Some [AdfNode ''text'' None None (Some txt) None]) None None
      in if lang = Some ''mermaid''
         then bindG (buildMermaidExtensionNode G) (\<lambda>ext. returnG [node, ext])
         else returnG [node])"

definition tableCell :: "string \<Rightarrow> token list \<Rightarrow> adf_node" where
  "tableCell kind toks =
     AdfNode kind (Some [])
       (Some [AdfNode ''paragraph'' None (Some (convertInlineTokens toks [])) None None])
       None None"

definition convertTable :: "token list list \<Rightarrow> token list list list \<Rightarrow> adf_node" where
  "convertTable header rows =
     AdfNode ''table''
       (Some [(''isNumberColumnEnabled'', ABool False), (''layout'', AStr ''default'')])
       (Some ((if header \<noteq> []
               then [AdfNode ''tableRow'' None
                       (Some (map (tableCell ''tableHeader'') header)) None None]
               else []) @
              map (\<lambda>row. AdfNode ''tableRow'' None
                            (Some (map (tableCell ''tableCell'') row)) None None) rows))
       None None"

subsection \<open>Blocks\<close>

text \<open>
  \<open>convertListItems\<close> is \<^verbatim>\<open>token.items.map(convertListItem)\<close>; \<open>convertListItemTokens\<close> is
  the loop of \<^verbatim>\<open>convertListItem\<close> and \<open>convertListItemToken\<close> its body. A result \<open>None\<close> of
  \<open>convertBlockToken\<close> is \<^verbatim>\<open>null\<close>.
\<close>

function (sequential)
  convertBlockTokens :: "(nat \<Rightarrow> string) \<Rightarrow> token list \<Rightarrow> adf_node list gen"
and convertBlockToken :: "(nat \<Rightarrow> string) \<Rightarrow> token \<Rightarrow> adf_node list option gen"
and convertList :: "(nat \<Rightarrow> string) \<Rightarrow> bool \<Rightarrow> int option \<Rightarrow> token list list \<Rightarrow> adf_node gen"
and convertListItems :: "(nat \<Rightarrow> string) \<Rightarrow> token list list \<Rightarrow> adf_node list gen"
and convertListItem :: "(nat \<Rightarrow> string) \<Rightarrow> token list \<Rightarrow> adf_node gen"
and convertListItemTokens :: "(nat \<Rightarrow> string) \<Rightarrow> token list \<Rightarrow> adf_node list gen"
and convertListItemToken :: "(nat \<Rightarrow> string) \<Rightarrow> token \<Rightarrow> adf_node list gen"
and convertBlockquote :: "(nat \<Rightarrow> string) \<Rightarrow> token list \<Rightarrow> adf_node gen"
where
  "convertBlockTokens G [] = returnG []"
| "convertBlockTokens G (t # ts) =
     bindG (convertBlockToken G t) (\<lambda>converted.
       bindG (convertBlockTokens G ts) (\<lambda>nodes.
         returnG ((case converted of None \<Rightarrow> [] | Some ns \<Rightarrow> ns) @ nodes)))"
| "convertBlockToken G (Heading depth txt toks) = returnG (Some [convertHeading depth toks])"
| "convertBlockToken G (Paragraph txt toks) = returnG (Some (convertParagraphNodes toks))"
| "convertBlockToken G (Code lang txt) =
     bindG (convertCodeBlock G lang txt) (\<lambda>ns. returnG (Some ns))"
| "convertBlockToken G (List ordered start items) =
     bindG (convertList G ordered start items) (\<lambda>n. returnG (Some [n]))"
| "convertBlockToken G (Blockquote txt toks) =
     bindG (convertBlockquote G toks) (\<lambda>n. returnG (Some [n]))"
| "convertBlockToken G (Table header rows) = returnG (Some [convertTable header rows])"
| "convertBlockToken G Hr = returnG (Some [AdfNode ''rule'' None None None None])"
| "convertBlockToken G (Html txt) =
     (if trim txt \<noteq> []
      then returnG (Some [AdfNode ''paragraph'' None
                            (Some [AdfNode ''text'' None None (Some txt) None]) None None])
      else returnG None)"
| "convertBlockToken G Space = returnG None"
| "convertBlockToken G Def = returnG None"
| "convertBlockToken G t = returnG None"
| "convertList G ordered start items =
     bindG (convertListItems G items) (\<lambda>lis.
       returnG (AdfNode (if ordered then ''orderedList'' else ''bulletList'')
                  (case start of
                     None \<Rightarrow> None
                   | Some n \<Rightarrow> if ordered \<and> n \<noteq> 1 then Some [(''order'', ANum n)] else None)
                  (Some lis) None None))"
| "convertListItems G [] = returnG []"
| "convertListItems G (item # items) =
     bindG (convertListItem G item) (\<lambda>n.
       bindG (convertListItems G items) (\<lambda>ns. returnG (n # ns)))"
| "convertListItem G itemTokens =
     bindG (convertListItemTokens G itemTokens) (\<lambda>cont.
       returnG (AdfNode ''listItem'' None
                  (Some (if cont = [] then [AdfNode ''paragraph'' None (Some []) None None]
                         else cont))
                  None None))"
| "convertListItemTokens G [] = returnG []"
| "convertListItemTokens G (t # ts) =
     bindG (convertListItemToken G t) (\<lambda>ns.
       bindG (convertListItemTokens G ts) (\<lambda>rest. returnG (ns @ rest)))"
| "convertListItemToken G (Text txt (Some toks)) =
     (let inlineNodes = convertInlineTokens toks []
      in returnG (if inlineNodes \<noteq> []
                  then [AdfNode ''paragraph'' None (Some inlineNodes) None None] else []))"
| "convertListItemToken G (List ordered start items) =
     bindG (convertList G ordered start items) (\<lambda>n. returnG [n])"
| "convertListItemToken G (Paragraph txt toks) = returnG (convertParagraphNodes toks)"
| "convertListItemToken G Space = returnG []"
| "convertListItemToken G t =
     bindG (convertBlockToken G t) (\<lambda>converted.
       returnG (case converted of None \<Rightarrow> [] | Some ns \<Rightarrow> ns))"
| "convertBlockquote G toks =
     bindG (convertBlockTokens G toks) (\<lambda>ns.
       returnG (AdfNode ''blockquote'' None (Some ns) None None))"
  by pat_completeness auto
termination
  by (relation "measure (\<lambda>x. case x of
        Inl (Inl (Inl (G, ts))) \<Rightarrow> 3 * size_list size ts
      | Inl (Inl (Inr (G, t))) \<Rightarrow> 3 * size t
      | Inl (Inr (Inl (G, ordered, start, items))) \<Rightarrow> 3 * size_list (size_list size) items + 2
      | Inl (Inr (Inr (G, items))) \<Rightarrow> 3 * size_list (size_list size) items + 1
      | Inr (Inl (Inl (G, toks))) \<Rightarrow> 3 * size_list size toks + 1
      | Inr (Inl (Inr (G, toks))) \<Rightarrow> 3 * size_list size toks
      | Inr (Inr (Inl (G, t))) \<Rightarrow> 3 * size t + 1
      | Inr (Inr (Inr (G, toks))) \<Rightarrow> 3 * size_list size toks + 1)")
    simp_all

definition markdownToAdf :: "marked \<Rightarrow> (nat \<Rightarrow> string) \<Rightarrow> string \<Rightarrow> adf_document gen" where
  "markdownToAdf M G markdown =
     (let tokens = lexer M markdown
      in bindG (convertBlockTokens G tokens) (\<lambda>cont.
           returnG \<lparr>doc_type = ''doc'',
                    doc_content = (if cont \<noteq> [] then cont
                                   else [AdfNode ''paragraph'' None (Some []) None None]),
                    doc_version = 1\<rparr>))"

section \<open>Reading the output back\<close>

text \<open>The entity each reserved XML character stands for, in the words of the specification.\<close>

definition xml_entity :: "char \<Rightarrow> string" where
  "xml_entity c =
     (if c = CHR ''&'' then ''&amp;''
      else if c = CHR ''<'' then ''&lt;''
      else if c = CHR ''>'' then ''&gt;''
      else if c = CHR 0x22 then ''&quot;''
      else if c = CHR 0x27 then ''&apos;''
      else [c])"

definition xml_reserved :: "char set" where
  "xml_reserved = {CHR ''&'', CHR ''<'', CHR ''>'', CHR 0x22, CHR 0x27}"

text \<open>\<open>contains pat s\<close>: the pattern occurs in \<open>s\<close> as a contiguous substring.\<close>

fun contains :: "string \<Rightarrow> string \<Rightarrow> bool" where
  "contains pat [] = (pat = [])"
| "contains pat (c # cs) = (take (length pat) (c # cs) = pat \<or> contains pat cs)"






text \<open>The page title of an href, in the words of the specification: the fragment (from
  the first \<^verbatim>\<open>#\<close> on), the directories (up to the last \<^verbatim>\<open>/\<close>) and a final \<^verbatim>\<open>.md\<close> are
  stripped.\<close>

definition pageTitleOf :: "string \<Rightarrow> string" where
  "pageTitleOf href =
     stripMdSuffix (rev (takeWhile (\<lambda>x. x \<noteq> CHR ''/'')
                     (rev (takeWhile (\<lambda>x. x \<noteq> CHR ''#'') href))))"

subsection \<open>Reading a document tree\<close>

text \<open>\<open>subnodes n\<close> lists \<open>n\<close> and every node below it in document order; \<open>nodesOf\<close> does
  so for a content sequence.\<close>

fun subnodes :: "adf_node \<Rightarrow> adf_node list" where
  "subnodes (AdfNode t a c x m) =
     AdfNode t a c x m # (case c of None \<Rightarrow> [] | Some cs \<Rightarrow> concat (map subnodes cs))"

definition nodesOf :: "adf_node list \<Rightarrow> adf_node list" where
  "nodesOf ns = concat (map subnodes ns)"

definition attrOf :: "adf_node \<Rightarrow> string \<Rightarrow> attr_value option" where
  "attrOf n k = (case attrs n of None \<Rightarrow> None | Some kv \<Rightarrow> map_of kv k)"

definition isExtension :: "adf_node \<Rightarrow> bool" where
  "isExtension n = (node_type n = ''extension'')"

definition isMermaidCodeBlock :: "adf_node \<Rightarrow> bool" where
  "isMermaidCodeBlock n =
     (node_type n = ''codeBlock'' \<and> attrOf n ''language'' = Some (AStr ''mermaid''))"

fun extensionsFollowMermaid :: "bool \<Rightarrow> adf_node list \<Rightarrow> bool" where
  "extensionsFollowMermaid prev [] = (\<not> prev)"
| "extensionsFollowMermaid prev (n # ns) =
     (isExtension n = prev \<and> extensionsFollowMermaid (isMermaidCodeBlock n) ns)"

definition siblingsOk :: "adf_node \<Rightarrow> bool" where
  "siblingsOk n = (case content n of None \<Rightarrow> True | Some cs \<Rightarrow> extensionsFollowMermaid False cs)"

definition listItemOk :: "adf_node \<Rightarrow> bool" where
  "listItemOk n =
     (node_type n \<noteq> ''listItem'' \<or> (case content n of None \<Rightarrow> False | Some cs \<Rightarrow> cs \<noteq> []))"

definition mermaidExtension :: "string \<Rightarrow> adf_node" where
  "mermaidExtension localId =
     AdfNode ''extension''
       (Some [(''extensionType'', AStr ''com.atlassian.ecosystem''),
              (''extensionKey'', AStr MERMAID_EXTENSION_KEY),
              (''parameters'', AObj [(''localId'', AStr localId)]),
              (''localId'', AStr localId)])
       None None None"

text \<open>
  The invariant of the block conversion, from generator state \<open>s\<close> to \<open>s'\<close>: in the
  sequence and in every container below it an extension node stands exactly behind a
  mermaid code block, every list item has a child, and the extension nodes in document
  order carry the identifiers generated from \<open>s\<close> up to \<open>s'\<close>, one each.
\<close>

definition blockInv :: "(nat \<Rightarrow> string) \<Rightarrow> adf_node list \<Rightarrow> nat \<Rightarrow> nat \<Rightarrow> bool" where
  "blockInv G ns s s' =
     (s \<le> s' \<and> extensionsFollowMermaid False ns \<and>
      list_all siblingsOk (nodesOf ns) \<and> list_all listItemOk (nodesOf ns) \<and>
      filter isExtension (nodesOf ns) = map (\<lambda>k. mermaidExtension (G k)) [s..<s'])"

text \<open>A node without content that is neither an extension, a code block nor a list item.\<close>

definition leafLike :: "adf_node \<Rightarrow> bool" where
  "leafLike n = (content n = None \<and> node_type n \<noteq> ''extension'' \<and>
     node_type n \<noteq> ''codeBlock'' \<and> node_type n \<noteq> ''listItem'')"

section \<open>Worked examples\<close>

text \<open>
  A stand-in for the library and the platform, used to evaluate the functions on concrete
  documents. The lexer knows the token trees of the listed documents, the templates are
  the library's HTML for the token kinds that occur in them, \<open>exampleUrlHost\<close> lists the
  host that \<^verbatim>\<open>new URL(href, "http://dummy")\<close> reports for the hrefs of the examples (a
  relative reference keeps the host of the base), and \<open>exampleUuid\<close> numbers the
  identifiers. Nothing outside the tables is used.
\<close>

definition exampleDocs :: "(string \<times> token list) list" where
  "exampleDocs =
     [([], []),
      (''```mermaid\<newline>graph TD\<newline>```'', [Code (Some ''mermaid'') ''graph TD'']),
      (''```mermaid\<newline>graph TD\<newline>```\<newline>\<newline>```js\<newline>x\<newline>```'',
       [Code (Some ''mermaid'') ''graph TD'', Space, Code (Some ''js'') ''x'']),
      (''- \<newline>- one'',
       [List False None [[], [Text ''one'' (Some [Text ''one'' None])]]]),
      (''![Alt text](https://example.com/image.png)'',
       [Paragraph ''![Alt text](https://example.com/image.png)''
          [Image ''https://example.com/image.png'' None ''Alt text'']]),
      (''[Season Highlights](docs/sample-short.md#section)'',
       [Paragraph ''[Season Highlights](docs/sample-short.md#section)''
          [Link ''docs/sample-short.md#section'' None [Text ''Season Highlights'' None]]])]"

definition markedEscape :: "string \<Rightarrow> string" where
  "markedEscape txt =
     replaceAll [CHR 0x27] ''&#39;''
       (replaceAll [CHR 0x22] ''&quot;''
         (replaceAll ''>'' ''&gt;''
           (replaceAll ''<'' ''&lt;''
             (replaceAll ''&'' ''&amp;'' txt))))"

definition exampleMarked :: marked where
  "exampleMarked =
     \<lparr>lexer = (\<lambda>md. case map_of exampleDocs md of Some ts \<Rightarrow> ts | None \<Rightarrow> []),
      render_leaf = (\<lambda>c t. case t of
           Text txt toks \<Rightarrow> markedEscape txt
         | Escape txt \<Rightarrow> markedEscape txt
         | Codespan txt \<Rightarrow> ''<code>'' @ markedEscape txt @ ''</code>''
         | Html txt \<Rightarrow> txt
         | Br \<Rightarrow> ''<br>''
         | _ \<Rightarrow> []),
      render_wrapped = (\<lambda>c t body. case t of
           Paragraph txt toks \<Rightarrow> ''<p>'' @ body @ ''</p>\<newline>''
         | Blockquote txt toks \<Rightarrow> ''<blockquote>\<newline>'' @ body @ ''</blockquote>\<newline>''
         | Strong toks \<Rightarrow> ''<strong>'' @ body @ ''</strong>''
         | Em toks \<Rightarrow> ''<em>'' @ body @ ''</em>''
         | Del toks \<Rightarrow> ''<del>'' @ body @ ''</del>''
         | Link href title toks \<Rightarrow>
             ''<a href=\"'' @ href @ ''\"'' @
             (case title of
                None \<Rightarrow> []
              | Some ttl \<Rightarrow> if ttl \<noteq> [] then '' title=\"'' @ markedEscape ttl @ ''\"'' else []) @
             ''>'' @ body @ ''</a>''
         | _ \<Rightarrow> body),
      render_list = (\<lambda>t bodies. case t of
           List ordered start items \<Rightarrow>
             (if ordered then ''<ol>\<newline>'' else ''<ul>\<newline>'') @
             concat (map (\<lambda>b. ''<li>'' @ b @ ''</li>\<newline>'') bodies) @
             (if ordered then ''</ol>\<newline>'' else ''</ul>\<newline>'')
         | _ \<Rightarrow> []),
      render_table = (\<lambda>t hs rs.
           ''<table>\<newline><thead>\<newline><tr>\<newline>'' @
           concat (map (\<lambda>h. ''<th>'' @ h @ ''</th>\<newline>'') hs) @
           ''</tr>\<newline></thead>\<newline>'' @
           concat (map (\<lambda>r. ''<tr>\<newline>'' @
                              concat (map (\<lambda>d. ''<td>'' @ d @ ''</td>\<newline>'') r) @
                              ''</tr>\<newline>'') rs) @
           ''</table>\<newline>'')\<rparr>"

definition exampleHosts :: "(string \<times> string) list" where
  "exampleHosts =
     [(''docs/sample-short.md#section'', ''dummy''),
      (''sample-short.md'', ''dummy''),
      (''https://example.com'', ''example.com''),
      (''http://dummy/foo.md'', ''dummy'')]"

definition exampleUrlHost :: "string \<Rightarrow> string option" where
  "exampleUrlHost href = map_of exampleHosts href"

definition exampleUuid :: "nat \<Rightarrow> string" where
  "exampleUuid n = ''uuid-'' @ replicate n (CHR ''i'')"

section \<open>Escaping\<close>

lemma replaceAll_char: "replaceAll [c] r s = concat (map (\<lambda>x. if x = c then r else [x]) s)"
  by (induction s) auto

lemma escapeXml_concat: "escapeXml s = concat (map xml_entity s)"
  by (induction s) (auto simp: escapeXml_def replaceAll_char xml_entity_def)

lemma concat_map_id: "(\<And>x. x \<in> set s \<Longrightarrow> f x = [x]) \<Longrightarrow> concat (map f s) = s"
  by (induction s) auto

lemma escapeXml_id: "set s \<inter> xml_reserved = {} \<Longrightarrow> escapeXml s = s"
  unfolding escapeXml_concat
  by (rule concat_map_id) (auto simp: xml_entity_def xml_reserved_def)













text \<open>
  C9: the attribute escaping maps the ampersand to \<^verbatim>\<open>&amp;\<close>, \<^verbatim>\<open><\<close> to \<^verbatim>\<open>&lt;\<close>, \<^verbatim>\<open>>\<close> to
  \<^verbatim>\<open>&gt;\<close>, the double quote to \<^verbatim>\<open>&quot;\<close> and the apostrophe to \<^verbatim>\<open>&apos;\<close>, every
  character on its own (the entities written for an ampersand are not escaped again),
  and it returns a string without reserved characters unchanged.
\<close>

theorem escapeXml_entities:
  "escapeXml s = concat (map xml_entity s) \<and>
   escapeXml ''&'' = ''&amp;'' \<and> escapeXml ''<'' = ''&lt;'' \<and> escapeXml ''>'' = ''&gt;'' \<and>
   escapeXml [CHR 0x22] = ''&quot;'' \<and> escapeXml [CHR 0x27] = ''&apos;'' \<and>
   (set s \<inter> xml_reserved = {} \<longrightarrow> escapeXml s = s)"
  using escapeXml_id[of s] by (simp add: escapeXml_concat xml_entity_def)

theorem escapeXml_entities_witness:
  "set ''Alt text'' \<inter> xml_reserved = {} \<and> escapeXml ''Alt text'' = ''Alt text'' \<and>
   escapeXml ''a<b&c'' = ''a&lt;b&amp;c''"
  using escapeXml_entities[of "''Alt text''"] escapeXml_entities[of "''a<b&c''"]
  by (simp add: xml_reserved_def xml_entity_def)



section \<open>The document format: invariants of the conversion\<close>

lemma bindG_apply: "bindG m f s = f (fst (m s)) (snd (m s))"
  by (simp add: bindG_def case_prod_beta)

lemma returnG_apply: "returnG x s = (x, s)"
  by (simp add: returnG_def)

lemma nodesOf_simps:
  "nodesOf [] = []"
  "nodesOf (n # ns) = subnodes n @ nodesOf ns"
  "nodesOf (xs @ ys) = nodesOf xs @ nodesOf ys"
  by (simp_all add: nodesOf_def)

lemma extensionsFollowMermaid_append:
  "extensionsFollowMermaid p xs \<Longrightarrow> extensionsFollowMermaid False ys \<Longrightarrow>
   extensionsFollowMermaid p (xs @ ys)"
  by (induction xs arbitrary: p) auto

lemma blockInv_Nil: "blockInv G [] s s"
  by (simp add: blockInv_def nodesOf_simps)

lemma blockInv_append:
  assumes "blockInv G xs s s1" and "blockInv G ys s1 s2"
  shows "blockInv G (xs @ ys) s s2"
proof -
  have le: "s \<le> s1" "s1 \<le> s2" using assms by (simp_all add: blockInv_def)
  then have "[s..<s2] = [s..<s1] @ [s1..<s2]"
    by (metis le_Suc_ex upt_add_eq_append)
  then show ?thesis
    using assms le by (simp add: blockInv_def nodesOf_simps extensionsFollowMermaid_append)
qed

lemma blockInv_wrap:
  assumes "blockInv G cs s s'"
    and "t \<noteq> ''extension''" "t \<noteq> ''codeBlock''" "t \<noteq> ''listItem''"
  shows "blockInv G [AdfNode t a (Some cs) x m] s s'"
  using assms
  by (simp add: blockInv_def nodesOf_simps isExtension_def isMermaidCodeBlock_def
      siblingsOk_def listItemOk_def nodesOf_def[symmetric])

lemma blockInv_listItem:
  assumes "blockInv G cs s s'" and "cs \<noteq> []"
  shows "blockInv G [AdfNode ''listItem'' a (Some cs) x m] s s'"
  using assms
  by (simp add: blockInv_def nodesOf_simps isExtension_def isMermaidCodeBlock_def
      siblingsOk_def listItemOk_def nodesOf_def[symmetric])

lemma blockInv_leafs: "list_all leafLike ns \<Longrightarrow> blockInv G ns s s"
proof (induction ns)
  case Nil
  then show ?case by (simp add: blockInv_Nil)
next
  case (Cons n ns)
  then have "blockInv G ns s s" by simp
  moreover have "blockInv G [n] s s"
    using Cons.prems
    by (cases n) (simp add: leafLike_def blockInv_def nodesOf_simps isExtension_def
        isMermaidCodeBlock_def siblingsOk_def listItemOk_def)
  ultimately show ?case using blockInv_append[of G "[n]" s s ns s] by simp
qed

lemma inline_leafLike:
  "list_all leafLike (convertInlineTokens ts mks)"
  "list_all leafLike (convertInlineToken t mks)"
  by (induction ts mks and t mks rule: convertInlineTokens_convertInlineToken.induct)
    (simp_all add: leafLike_def textNode_def)

lemma blockInv_inline: "blockInv G (convertInlineTokens ts mks) s s"
  by (rule blockInv_leafs) (rule inline_leafLike)


lemma blockInv_paragraph:
  "blockInv G [AdfNode ''paragraph'' a (Some (convertInlineTokens ts mks)) x m] s s"
  by (rule blockInv_wrap[OF blockInv_inline]) simp_all

lemma blockInv_heading: "blockInv G [convertHeading depth toks] s s"
  unfolding convertHeading_def by (rule blockInv_wrap[OF blockInv_inline]) simp_all

lemma blockInv_mediaSingle: "blockInv G [convertImageToMediaSingle t] s s"
proof -
  have "blockInv G [AdfNode ''mediaSingle'' a (Some [AdfNode ''media'' b None None None]) None None] s s"
    for a b
    by (rule blockInv_wrap[OF blockInv_leafs]) (simp_all add: leafLike_def)
  then show ?thesis by (cases t) simp_all
qed

lemma blockInv_map:
  "(\<And>x. blockInv G [f x] s s) \<Longrightarrow> blockInv G (map f xs) s s"
proof (induction xs)
  case Nil
  then show ?case by (simp add: blockInv_Nil)
next
  case (Cons x xs)
  then show ?case using blockInv_append[of G "[f x]" s s "map f xs" s] by simp
qed

lemma blockInv_paragraphNodes: "blockInv G (convertParagraphNodes toks) s s"
  unfolding convertParagraphNodes_def
  by (simp add: blockInv_paragraph blockInv_map blockInv_mediaSingle)

lemma blockInv_tableCell:
  "kind \<noteq> ''extension'' \<Longrightarrow> kind \<noteq> ''codeBlock'' \<Longrightarrow> kind \<noteq> ''listItem'' \<Longrightarrow>
   blockInv G [tableCell kind toks] s s"
  unfolding tableCell_def by (rule blockInv_wrap[OF blockInv_paragraph]) simp_all

lemma blockInv_tableRow:
  "kind \<noteq> ''extension'' \<Longrightarrow> kind \<noteq> ''codeBlock'' \<Longrightarrow> kind \<noteq> ''listItem'' \<Longrightarrow>
   blockInv G [AdfNode ''tableRow'' None (Some (map (tableCell kind) row)) None None] s s"
  by (rule blockInv_wrap[OF blockInv_map]) (simp_all add: blockInv_tableCell)

lemma blockInv_table: "blockInv G [convertTable header rows] s s"
proof -
  have h: "blockInv G
      (if header \<noteq> []
       then [AdfNode ''tableRow'' None (Some (map (tableCell ''tableHeader'') header)) None None]
       else []) s s"
    by (simp add: blockInv_Nil blockInv_tableRow)
  have r: "blockInv G
      (map (\<lambda>row. AdfNode ''tableRow'' None (Some (map (tableCell ''tableCell'') row)) None None) rows) s s"
    by (rule blockInv_map) (simp add: blockInv_tableRow)
  show ?thesis
    unfolding convertTable_def
    by (rule blockInv_wrap[OF blockInv_append[OF h r]]) simp_all
qed

lemma blockInv_codeBlock:
  "blockInv G (fst (convertCodeBlock G lang txt s)) s (snd (convertCodeBlock G lang txt s))"
proof (cases "lang = Some ''mermaid''")
  case True
  then show ?thesis
    by (simp add: convertCodeBlock_def buildMermaidExtensionNode_def randomUUID_def
        bindG_apply returnG_apply blockInv_def nodesOf_simps isExtension_def
        isMermaidCodeBlock_def attrOf_def siblingsOk_def listItemOk_def mermaidExtension_def)
next
  case False
  then show ?thesis
    by (cases lang)
      (auto simp: convertCodeBlock_def returnG_apply blockInv_def nodesOf_simps isExtension_def
        isMermaidCodeBlock_def attrOf_def siblingsOk_def listItemOk_def)
qed

lemma blockInv_rule: "blockInv G [AdfNode ''rule'' None None None None] s s"
  by (rule blockInv_leafs) (simp add: leafLike_def)

lemma blockInv_html:
  "blockInv G [AdfNode ''paragraph'' None (Some [AdfNode ''text'' None None (Some txt) None]) None None] s s"
  by (rule blockInv_wrap[OF blockInv_leafs]) (simp_all add: leafLike_def)

lemma blockInv_Nil_state: "blockInv G [] s s' \<Longrightarrow> s' = s"
  by (auto simp: blockInv_def nodesOf_simps)

lemma convert_blockInv:
  "\<forall>s. blockInv G (fst (convertBlockTokens G ts s)) s (snd (convertBlockTokens G ts s))"
  "\<forall>s. blockInv G (case fst (convertBlockToken G t s) of None \<Rightarrow> [] | Some ns \<Rightarrow> ns) s
         (snd (convertBlockToken G t s))"
  "\<forall>s. blockInv G [fst (convertList G ordered start items s)] s
         (snd (convertList G ordered start items s))"
  "\<forall>s. blockInv G (fst (convertListItems G items' s)) s (snd (convertListItems G items' s))"
  "\<forall>s. blockInv G [fst (convertListItem G item s)] s (snd (convertListItem G item s))"
  "\<forall>s. blockInv G (fst (convertListItemTokens G its s)) s (snd (convertListItemTokens G its s))"
  "\<forall>s. blockInv G (fst (convertListItemToken G it s)) s (snd (convertListItemToken G it s))"
  "\<forall>s. blockInv G [fst (convertBlockquote G qs s)] s (snd (convertBlockquote G qs s))"
proof (induction G ts and G t and G ordered start items and G items' and G item and G its
    and G it and G qs
    rule: convertBlockTokens_convertBlockToken_convertList_convertListItems_convertListItem_convertListItemTokens_convertListItemToken_convertBlockquote.induct)
  case (2 G t ts)
  show ?case
  proof
    fix s
    let ?s1 = "snd (convertBlockToken G t s)"
    have a: "blockInv G (case fst (convertBlockToken G t s) of None \<Rightarrow> [] | Some ns \<Rightarrow> ns) s ?s1"
      using 2(1) by blast
    have b: "blockInv G (fst (convertBlockTokens G ts ?s1)) ?s1 (snd (convertBlockTokens G ts ?s1))"
      using 2(2) by blast
    show "blockInv G (fst (convertBlockTokens G (t # ts) s)) s (snd (convertBlockTokens G (t # ts) s))"
      using blockInv_append[OF a b] by (simp add: bindG_apply returnG_apply)
  qed
next
  case (14 G ordered start items)
  show ?case
  proof
    fix s
    have a: "blockInv G (fst (convertListItems G items s)) s (snd (convertListItems G items s))"
      using 14 by blast
    show "blockInv G [fst (convertList G ordered start items s)] s
         (snd (convertList G ordered start items s))"
      using blockInv_wrap[OF a] by (simp add: bindG_apply returnG_apply)
  qed
next
  case (16 G item items)
  show ?case
  proof
    fix s
    let ?s1 = "snd (convertListItem G item s)"
    have a: "blockInv G [fst (convertListItem G item s)] s ?s1"
      using 16(1) by blast
    have b: "blockInv G (fst (convertListItems G items ?s1)) ?s1 (snd (convertListItems G items ?s1))"
      using 16(2) by blast
    show "blockInv G (fst (convertListItems G (item # items) s)) s
         (snd (convertListItems G (item # items) s))"
      using blockInv_append[OF a b] by (simp add: bindG_apply returnG_apply)
  qed
next
  case (17 G itemTokens)
  show ?case
  proof
    fix s
    have a: "blockInv G (fst (convertListItemTokens G itemTokens s)) s
        (snd (convertListItemTokens G itemTokens s))"
      using 17 by blast
    have e: "blockInv G [AdfNode ''paragraph'' None (Some []) None None] s' s'" for s'
      by (rule blockInv_wrap[OF blockInv_Nil]) simp_all
    show "blockInv G [fst (convertListItem G itemTokens s)] s (snd (convertListItem G itemTokens s))"
    proof (cases "fst (convertListItemTokens G itemTokens s) = []")
      case True
      then have "snd (convertListItemTokens G itemTokens s) = s"
        using a blockInv_Nil_state by simp
      then show ?thesis
        using True blockInv_listItem[OF e[of s]] by (simp add: bindG_apply returnG_apply)
    next
      case False
      then show ?thesis
        using blockInv_listItem[OF a] by (simp add: bindG_apply returnG_apply)
    qed
  qed
next
  case (19 G t ts)
  show ?case
  proof
    fix s
    let ?s1 = "snd (convertListItemToken G t s)"
    have a: "blockInv G (fst (convertListItemToken G t s)) s ?s1"
      using 19(1) by blast
    have b: "blockInv G (fst (convertListItemTokens G ts ?s1)) ?s1
        (snd (convertListItemTokens G ts ?s1))"
      using 19(2) by blast
    show "blockInv G (fst (convertListItemTokens G (t # ts) s)) s
         (snd (convertListItemTokens G (t # ts) s))"
      using blockInv_append[OF a b] by (simp add: bindG_apply returnG_apply)
  qed
next
  case (25 G toks)
  show ?case
  proof
    fix s
    have a: "blockInv G (fst (convertBlockTokens G toks s)) s (snd (convertBlockTokens G toks s))"
      using 25 by blast
    show "blockInv G [fst (convertBlockquote G toks s)] s (snd (convertBlockquote G toks s))"
      using blockInv_wrap[OF a] by (simp add: bindG_apply returnG_apply)
  qed
qed (simp_all add: bindG_apply returnG_apply blockInv_Nil blockInv_heading
    blockInv_paragraphNodes blockInv_codeBlock blockInv_table blockInv_rule blockInv_html
    blockInv_paragraph Let_def)

section \<open>The document format: the returned document\<close>

lemma markdownToAdf_blockInv:
  "blockInv G (doc_content (fst (markdownToAdf M G markdown s))) s
     (snd (markdownToAdf M G markdown s))"
proof -
  let ?r = "convertBlockTokens G (lexer M markdown) s"
  have a: "blockInv G (fst ?r) s (snd ?r)"
    using convert_blockInv(1) by blast
  have e: "blockInv G [AdfNode ''paragraph'' None (Some []) None None] s s"
    by (rule blockInv_wrap[OF blockInv_Nil]) simp_all
  show ?thesis
  proof (cases "fst ?r = []")
    case True
    then have "snd ?r = s" using a blockInv_Nil_state by simp
    then show ?thesis
      using True e by (simp add: markdownToAdf_def bindG_apply returnG_apply)
  next
    case False
    then show ?thesis
      using a by (simp add: markdownToAdf_def bindG_apply returnG_apply)
  qed
qed

text \<open>
  C1: in the document returned by \<^verbatim>\<open>markdownToAdf\<close>, in the top-level content and in the
  content of every node, a node is an extension node exactly when the sibling right before
  it is a code block with language \<^verbatim>\<open>mermaid\<close> (so such a block is never last, and no
  other block is followed by an extension). The extension nodes, in document order, are
  the nodes with the fixed type and key whose \<^verbatim>\<open>localId\<close> and \<^verbatim>\<open>parameters.localId\<close> both
  hold the identifier of one call of the generator: the first the identifier generated
  first, and so on, every call being used once.
\<close>

theorem mermaid_extension_placement:
  assumes "markdownToAdf M G markdown s = (doc, s')"
  shows "extensionsFollowMermaid False (doc_content doc) \<and>
         list_all siblingsOk (nodesOf (doc_content doc)) \<and>
         filter isExtension (nodesOf (doc_content doc)) =
           map (\<lambda>k. AdfNode ''extension''
                       (Some [(''extensionType'', AStr ''com.atlassian.ecosystem''),
                              (''extensionKey'', AStr MERMAID_EXTENSION_KEY),
                              (''parameters'', AObj [(''localId'', AStr (G k))]),
                              (''localId'', AStr (G k))])
                       None None None) [s..<s']"
  using markdownToAdf_blockInv[of G M markdown s] assms
  by (simp add: blockInv_def mermaidExtension_def)

theorem mermaid_extension_placement_witness:
  "markdownToAdf exampleMarked exampleUuid
     ''```mermaid\<newline>graph TD\<newline>```\<newline>\<newline>```js\<newline>x\<newline>```'' 0 =
     (\<lparr>doc_type = ''doc'',
       doc_content =
         [AdfNode ''codeBlock'' (Some [(''language'', AStr ''mermaid'')])
            (Some [AdfNode ''text'' None None (Some ''graph TD'') None]) None None,
          AdfNode ''extension''
            (Some [(''extensionType'', AStr ''com.atlassian.ecosystem''),
                   (''extensionKey'', AStr MERMAID_EXTENSION_KEY),
                   (''parameters'', AObj [(''localId'', AStr ''uuid-'')]),
                   (''localId'', AStr ''uuid-'')])
            None None None,
          AdfNode ''codeBlock'' (Some [(''language'', AStr ''js'')])
            (Some [AdfNode ''text'' None None (Some ''x'') None]) None None],
       doc_version = 1\<rparr>, 1) \<and>
   filter isExtension (nodesOf
         [AdfNode ''codeBlock'' (Some [(''language'', AStr ''mermaid'')])
            (Some [AdfNode ''text'' None None (Some ''graph TD'') None]) None None,
          AdfNode ''extension''
            (Some [(''extensionType'', AStr ''com.atlassian.ecosystem''),
                   (''extensionKey'', AStr MERMAID_EXTENSION_KEY),
                   (''parameters'', AObj [(''localId'', AStr ''uuid-'')]),
                   (''localId'', AStr ''uuid-'')])
            None None None,
          AdfNode ''codeBlock'' (Some [(''language'', AStr ''js'')])
            (Some [AdfNode ''text'' None None (Some ''x'') None]) None None]) =
     [AdfNode ''extension''
            (Some [(''extensionType'', AStr ''com.atlassian.ecosystem''),
                   (''extensionKey'', AStr MERMAID_EXTENSION_KEY),
                   (''parameters'', AObj [(''localId'', AStr (exampleUuid 0))]),
                   (''localId'', AStr (exampleUuid 0))])
            None None None]"
proof -
  have h: "markdownToAdf exampleMarked exampleUuid
     ''```mermaid\<newline>graph TD\<newline>```\<newline>\<newline>```js\<newline>x\<newline>```'' 0 =
     (\<lparr>doc_type = ''doc'',
       doc_content =
         [AdfNode ''codeBlock'' (Some [(''language'', AStr ''mermaid'')])
            (Some [AdfNode ''text'' None None (Some ''graph TD'') None]) None None,
          AdfNode ''extension''
            (Some [(''extensionType'', AStr ''com.atlassian.ecosystem''),
                   (''extensionKey'', AStr MERMAID_EXTENSION_KEY),
                   (''parameters'', AObj [(''localId'', AStr ''uuid-'')]),
                   (''localId'', AStr ''uuid-'')])
            None None None,
          AdfNode ''codeBlock'' (Some [(''language'', AStr ''js'')])
            (Some [AdfNode ''text'' None None (Some ''x'') None]) None None],
       doc_version = 1\<rparr>, 1)"
    by (simp add: markdownToAdf_def exampleMarked_def exampleDocs_def exampleUuid_def
        bindG_apply returnG_apply convertCodeBlock_def buildMermaidExtensionNode_def
        randomUUID_def)
  show ?thesis
    using h mermaid_extension_placement[OF h] by simp
qed




text \<open>
  C6: when the block conversion yields no node, in particular for the empty string (for
  which the lexer returns no token), \<^verbatim>\<open>markdownToAdf\<close> returns the document of type
  \<^verbatim>\<open>doc\<close> and version 1 whose content is one empty paragraph; the content of a returned
  document is never empty.
\<close>

theorem markdownToAdf_empty_document:
  "(fst (convertBlockTokens G (lexer M markdown) s) = [] \<longrightarrow>
      fst (markdownToAdf M G markdown s) =
        \<lparr>doc_type = ''doc'',
         doc_content = [AdfNode ''paragraph'' None (Some []) None None],
         doc_version = 1\<rparr>) \<and>
   (lexer M [] = [] \<longrightarrow>
      markdownToAdf M G [] s =
        (\<lparr>doc_type = ''doc'',
          doc_content = [AdfNode ''paragraph'' None (Some []) None None],
          doc_version = 1\<rparr>, s)) \<and>
   doc_content (fst (markdownToAdf M G markdown s)) \<noteq> []"
  by (simp add: markdownToAdf_def bindG_apply returnG_apply)

theorem markdownToAdf_empty_document_witness:
  "lexer exampleMarked [] = [] \<and>
   fst (convertBlockTokens exampleUuid (lexer exampleMarked []) 0) = [] \<and>
   markdownToAdf exampleMarked exampleUuid [] 0 =
     (\<lparr>doc_type = ''doc'',
       doc_content = [AdfNode ''paragraph'' None (Some []) None None],
       doc_version = 1\<rparr>, 0)"
proof -
  have h: "lexer exampleMarked [] = []"
    by (simp add: exampleMarked_def exampleDocs_def)
  show ?thesis
    using h markdownToAdf_empty_document[of exampleUuid exampleMarked "[]" 0]
    by (simp add: returnG_apply)
qed





section \<open>The storage format: links and mermaid blocks\<close>

lemma at0_split_on: "at0 (split_on sep s) = Some (takeWhile (\<lambda>x. x \<noteq> sep) s)"
  by (subst split_on.simps) (simp add: at0_def)


lemma takeWhile_stop: "\<not> P x \<Longrightarrow> takeWhile P (xs @ x # ys) = takeWhile P xs"
  by (induction xs) auto

lemma takeWhile_rev_sep:
  assumes "dropWhile (\<lambda>x. x \<noteq> sep) s = c # rest"
  shows "takeWhile (\<lambda>x. x \<noteq> sep) (rev s) = takeWhile (\<lambda>x. x \<noteq> sep) (rev rest)"
proof -
  have c: "c = sep"
    using assms hd_dropWhile[of "\<lambda>x. x \<noteq> sep" s] by simp
  have "s = takeWhile (\<lambda>x. x \<noteq> sep) s @ dropWhile (\<lambda>x. x \<noteq> sep) s"
    by simp
  then have s: "s = takeWhile (\<lambda>x. x \<noteq> sep) s @ sep # rest"
    unfolding assms c .
  have "rev s = rev rest @ sep # rev (takeWhile (\<lambda>x. x \<noteq> sep) s)"
    by (subst s) simp
  then show ?thesis by (simp add: takeWhile_stop)
qed

lemma split_on_unfold:
  "split_on sep s =
     takeWhile (\<lambda>x. x \<noteq> sep) s #
       (case dropWhile (\<lambda>x. x \<noteq> sep) s of [] \<Rightarrow> [] | c # rest \<Rightarrow> split_on sep rest)"
  by (rule split_on.simps)

lemma split_on_nonempty: "split_on sep s \<noteq> []"
  by (subst split_on_unfold) simp

lemma last_split_on: "last (split_on sep s) = rev (takeWhile (\<lambda>x. x \<noteq> sep) (rev s))"
proof (induction sep s rule: split_on.induct)
  case (1 sep s)
  show ?case
  proof (cases "dropWhile (\<lambda>x. x \<noteq> sep) s")
    case Nil
    have eq: "split_on sep s = [takeWhile (\<lambda>x. x \<noteq> sep) s]"
      using split_on_unfold[of sep s] unfolding Nil by simp
    have "\<forall>x\<in>set s. x \<noteq> sep"
      using Nil by (simp add: dropWhile_eq_Nil_conv)
    then have t: "takeWhile (\<lambda>x. x \<noteq> sep) s = s" "takeWhile (\<lambda>x. x \<noteq> sep) (rev s) = rev s"
      by (simp_all add: takeWhile_eq_all_conv)
    show ?thesis unfolding eq t by simp
  next
    case (Cons c rest)
    have "split_on sep s = takeWhile (\<lambda>x. x \<noteq> sep) s # split_on sep rest"
      using split_on_unfold[of sep s] unfolding Cons by simp
    then have "last (split_on sep s) = last (split_on sep rest)"
      using split_on_nonempty[of sep rest] by simp
    also have "\<dots> = rev (takeWhile (\<lambda>x. x \<noteq> sep) (rev rest))"
      using 1[OF Cons] .
    finally show ?thesis using takeWhile_rev_sep[OF Cons] by simp
  qed
qed

lemma pop_split_on: "pop (split_on sep s) = Some (rev (takeWhile (\<lambda>x. x \<noteq> sep) (rev s)))"
proof -
  show ?thesis by (simp add: pop_def last_split_on split_on_nonempty)
qed

lemma mdHrefToPageTitle_eq: "mdHrefToPageTitle href = Inr (pageTitleOf href)"
  by (simp add: mdHrefToPageTitle_def at0_split_on pop_split_on pageTitleOf_def)

lemma bindE_Inr: "bindE (Inr a) f = f a"
  by (simp add: bindE_def)

lemma link_total:
  assumes "parseInl tokens = Inr body"
  shows "link U parseInl href title tokens =
     Inr (if href \<noteq> [] \<and> isMarkdownFileLink U href
          then Some (''<ac:link'' @
                     (case title of
                        None \<Rightarrow> []
                      | Some ttl \<Rightarrow>
                          if ttl \<noteq> [] then '' ac:title=\"'' @ escapeXml ttl @ ''\"'' else []) @
                     ''>'' @
                     ''<ri:page ri:content-title=\"'' @ escapeXml (pageTitleOf href) @ ''\" />'' @
                     ''<ac:link-body>'' @ body @ ''</ac:link-body>'' @
                     ''</ac:link>'')
          else None)"
  using assms by (simp add: link_def mdHrefToPageTitle_eq bindE_Inr)

lemma render_total:
  "\<exists>out. renderTokens M U c ts = Inr out"
  "\<exists>out. render M U c' t = Inr out"
  "\<exists>outs. renderItems M U items = Inr outs"
  "\<exists>outs. renderCells M U cells = Inr outs"
  "\<exists>outs. renderRows M U rows = Inr outs"
proof (induction M U c ts and M U c' t and M U items and M U cells and M U rows
    rule: renderTokens_render_renderItems_renderCells_renderRows.induct)
  case (6 M U c href title toks)
  then obtain body where b: "renderTokens M U Inline toks = Inr body" by blast
  show ?case
    using link_total[where parseInl = "renderTokens M U Inline" and tokens = toks, OF b, of U href title]
    by (simp add: b bindE_Inr)
qed (auto simp: bindE_Inr)

lemma mdTail_iff:
  "mdTail r \<longleftrightarrow> r = [] \<or> (\<exists>f. r = CHR ''#'' # f \<and> list_all (\<lambda>x. \<not> isLineTerminator x) f)"
  by (cases r) (auto simp: mdTail_def)

lemma testMdLink_cons:
  "testMdLink (c # cs) \<longleftrightarrow>
     (\<exists>r. c # cs = ''.md'' @ r \<and> mdTail r) \<or> testMdLink cs"
proof -
  have "take 3 (c # cs) = ''.md'' \<and> mdTail (drop 3 (c # cs)) \<longleftrightarrow>
      (\<exists>r. c # cs = ''.md'' @ r \<and> mdTail r)"
  proof
    assume a: "take 3 (c # cs) = ''.md'' \<and> mdTail (drop 3 (c # cs))"
    then have "c # cs = ''.md'' @ drop 3 (c # cs)"
      by (metis append_take_drop_id)
    then show "\<exists>r. c # cs = ''.md'' @ r \<and> mdTail r" using a by blast
  next
    assume "\<exists>r. c # cs = ''.md'' @ r \<and> mdTail r"
    then obtain r where r: "c # cs = ''.md'' @ r" "mdTail r" by blast
    have "take 3 (''.md'' @ r) = ''.md''" "drop 3 (''.md'' @ r) = r" by simp_all
    then show "take 3 (c # cs) = ''.md'' \<and> mdTail (drop 3 (c # cs))"
      using r by simp
  qed
  then show ?thesis by simp
qed

lemma testMdLink_iff_tail: "testMdLink href \<longleftrightarrow> (\<exists>p r. href = p @ ''.md'' @ r \<and> mdTail r)"
proof (induction href)
  case Nil
  then show ?case by simp
next
  case (Cons c cs)
  show ?case
  proof
    assume "testMdLink (c # cs)"
    then consider r where "c # cs = ''.md'' @ r" "mdTail r" | "testMdLink cs"
      unfolding testMdLink_cons by blast
    then show "\<exists>p r. c # cs = p @ ''.md'' @ r \<and> mdTail r"
    proof cases
      case 1
      then have "c # cs = [] @ ''.md'' @ r" by simp
      then show ?thesis using 1(2) by blast
    next
      case 2
      then obtain p r where "cs = p @ ''.md'' @ r" "mdTail r" using Cons by blast
      then have "c # cs = (c # p) @ ''.md'' @ r \<and> mdTail r" by simp
      then show ?thesis by blast
    qed
  next
    assume "\<exists>p r. c # cs = p @ ''.md'' @ r \<and> mdTail r"
    then obtain p r where pr: "c # cs = p @ ''.md'' @ r" "mdTail r" by blast
    show "testMdLink (c # cs)"
    proof (cases p)
      case Nil
      then have "c # cs = ''.md'' @ r" using pr by simp
      then show ?thesis unfolding testMdLink_cons using pr(2) by blast
    next
      case (Cons d p')
      then have "cs = p' @ ''.md'' @ r" using pr by simp
      then have "testMdLink cs" using Cons.IH pr(2) by blast
      then show ?thesis unfolding testMdLink_cons by blast
    qed
  qed
qed

lemma testMdLink_iff:
  "testMdLink href \<longleftrightarrow>
     (\<exists>p f. href = p @ ''.md'' \<or>
            (href = p @ ''.md#'' @ f \<and> list_all (\<lambda>x. \<not> isLineTerminator x) f))"
proof
  assume "testMdLink href"
  then obtain p r where pr: "href = p @ ''.md'' @ r" "mdTail r"
    unfolding testMdLink_iff_tail by blast
  from pr(2) consider "r = []"
    | f where "r = CHR ''#'' # f" "list_all (\<lambda>x. \<not> isLineTerminator x) f"
    unfolding mdTail_iff by blast
  then show "\<exists>p f. href = p @ ''.md'' \<or>
            (href = p @ ''.md#'' @ f \<and> list_all (\<lambda>x. \<not> isLineTerminator x) f)"
  proof cases
    case 1
    then have "href = p @ ''.md''" using pr by simp
    then show ?thesis by blast
  next
    case 2
    then have "href = p @ ''.md#'' @ f" using pr by simp
    then show ?thesis using 2(2) by blast
  qed
next
  assume "\<exists>p f. href = p @ ''.md'' \<or>
            (href = p @ ''.md#'' @ f \<and> list_all (\<lambda>x. \<not> isLineTerminator x) f)"
  then obtain p f where
    "href = p @ ''.md'' \<or> (href = p @ ''.md#'' @ f \<and> list_all (\<lambda>x. \<not> isLineTerminator x) f)"
    by blast
  then consider "href = p @ ''.md'' @ []" "mdTail []"
    | "href = p @ ''.md'' @ (CHR ''#'' # f)" "mdTail (CHR ''#'' # f)"
    by (auto simp: mdTail_def)
  then show "testMdLink href"
    unfolding testMdLink_iff_tail by cases blast+
qed

lemma isMarkdownFileLink_iff:
  "isMarkdownFileLink U href \<longleftrightarrow> (U href = None \<or> U href = Some ''dummy'') \<and> testMdLink href"
  by (cases "U href") (auto simp: isMarkdownFileLink_def)

text \<open>
  What the parser returns for a link token, by the cases of the \<^verbatim>\<open>link\<close> override. The
  override answers with the \<^verbatim>\<open>ac:link\<close> macro exactly when the href is not empty,
  \<^verbatim>\<open>new URL(href, "http://dummy")\<close> throws or reports the host \<^verbatim>\<open>dummy\<close>, and the href ends
  in \<^verbatim>\<open>.md\<close> or in \<^verbatim>\<open>.md#\<close> and a fragment without line terminator: an \<^verbatim>\<open>ac:title\<close>
  attribute only for a non-empty title, an \<^verbatim>\<open>ri:page\<close> tag whose content title is the
  escaped href without fragment, directories and \<^verbatim>\<open>.md\<close>, and an \<^verbatim>\<open>ac:link-body\<close> around
  the inline content as the parser renders it. In every other case the built-in link
  template of the library is given the same inline content.
\<close>

lemma link_override_cases:
  "(\<exists>body. parseInline M U toks = Inr body \<and>
      render M U c (Link href title toks) =
        Inr (if href \<noteq> [] \<and> (U href = None \<or> U href = Some ''dummy'') \<and> testMdLink href
             then ''<ac:link'' @
                  (case title of
                     None \<Rightarrow> []
                   | Some ttl \<Rightarrow>
                       if ttl \<noteq> [] then '' ac:title=\"'' @ escapeXml ttl @ ''\"'' else []) @
                  ''>'' @
                  ''<ri:page ri:content-title=\"'' @ escapeXml (pageTitleOf href) @ ''\" />'' @
                  ''<ac:link-body>'' @ body @ ''</ac:link-body>'' @
                  ''</ac:link>''
             else render_wrapped M c (Link href title toks) body)) \<and>
   (testMdLink href \<longleftrightarrow>
      (\<exists>p f. href = p @ ''.md'' \<or>
             (href = p @ ''.md#'' @ f \<and> list_all (\<lambda>x. \<not> isLineTerminator x) f)))"
proof -
  obtain body where b: "renderTokens M U Inline toks = Inr body"
    using render_total(1) by blast
  have "render M U c (Link href title toks) =
        Inr (if href \<noteq> [] \<and> (U href = None \<or> U href = Some ''dummy'') \<and> testMdLink href
             then ''<ac:link'' @
                  (case title of
                     None \<Rightarrow> []
                   | Some ttl \<Rightarrow>
                       if ttl \<noteq> [] then '' ac:title=\"'' @ escapeXml ttl @ ''\"'' else []) @
                  ''>'' @
                  ''<ri:page ri:content-title=\"'' @ escapeXml (pageTitleOf href) @ ''\" />'' @
                  ''<ac:link-body>'' @ body @ ''</ac:link-body>'' @
                  ''</ac:link>''
             else render_wrapped M c (Link href title toks) body)"
    using link_total[where parseInl = "renderTokens M U Inline" and tokens = toks, OF b, of U href title]
    by (simp add: b bindE_Inr isMarkdownFileLink_iff)
  then show ?thesis
    using b testMdLink_iff[of href] unfolding parseInline_def by blast
qed

lemma link_override_examples:
  "render exampleMarked exampleUrlHost Inline
     (Link ''docs/sample-short.md#section'' None [Text ''Season Highlights'' None]) =
     Inr ''<ac:link><ri:page ri:content-title=\"sample-short\" /><ac:link-body>Season Highlights</ac:link-body></ac:link>'' \<and>
   render exampleMarked exampleUrlHost Inline
     (Link ''https://example.com'' None [Text ''Click here'' None]) =
     Inr ''<a href=\"https://example.com\">Click here</a>''"
proof -
  have p1: "parseInline exampleMarked exampleUrlHost [Text ''Season Highlights'' None] =
      Inr ''Season Highlights''"
    and p2: "parseInline exampleMarked exampleUrlHost [Text ''Click here'' None] =
      Inr ''Click here''"
    by code_simp+
  have c1: "''docs/sample-short.md#section'' \<noteq> [] \<and>
      (exampleUrlHost ''docs/sample-short.md#section'' = None \<or>
       exampleUrlHost ''docs/sample-short.md#section'' = Some ''dummy'') \<and>
      testMdLink ''docs/sample-short.md#section''"
    by code_simp
  have c2: "\<not> (''https://example.com'' \<noteq> [] \<and>
      (exampleUrlHost ''https://example.com'' = None \<or>
       exampleUrlHost ''https://example.com'' = Some ''dummy'') \<and>
      testMdLink ''https://example.com'')"
    by code_simp
  have t: "escapeXml (pageTitleOf ''docs/sample-short.md#section'') = ''sample-short''"
    by code_simp
  have w: "render_wrapped exampleMarked Inline
      (Link ''https://example.com'' None [Text ''Click here'' None]) ''Click here'' =
      ''<a href=\"https://example.com\">Click here</a>''"
    by code_simp
  from link_override_cases[of exampleMarked exampleUrlHost "[Text ''Season Highlights'' None]"
        Inline "''docs/sample-short.md#section''" None]
  have r1: "render exampleMarked exampleUrlHost Inline
     (Link ''docs/sample-short.md#section'' None [Text ''Season Highlights'' None]) =
     Inr ''<ac:link><ri:page ri:content-title=\"sample-short\" /><ac:link-body>Season Highlights</ac:link-body></ac:link>''"
    unfolding p1 using c1 by (simp del: render.simps add: t)
  from link_override_cases[of exampleMarked exampleUrlHost "[Text ''Click here'' None]"
        Inline "''https://example.com''" None]
  have r2: "render exampleMarked exampleUrlHost Inline
     (Link ''https://example.com'' None [Text ''Click here'' None]) =
     Inr ''<a href=\"https://example.com\">Click here</a>''"
    unfolding p2 using c2 by (simp del: render.simps add: w)
  show ?thesis using r1 r2 by blast
qed

text \<open>
  C4: a link whose href is a relative path ending in \<^verbatim>\<open>.md\<close> is rendered as the
  cross-document macro, and every other link, in particular an absolute URL with a host,
  as a plain anchor. The code departs from this at an absolute URL whose host is \<^verbatim>\<open>dummy\<close>.
  \<^verbatim>\<open>isMarkdownFileLink\<close> takes a href for relative when the host of
  \<^verbatim>\<open>new URL(href, "http://dummy")\<close> is the host of the base, and \<^verbatim>\<open>http://dummy/foo.md\<close> has
  that host of its own: the function, described in the source as the test for a relative
  \<^verbatim>\<open>.md\<close> link that sends an absolute URL with a host to the external links, accepts it, and
  the link is rendered as the macro for the page \<^verbatim>\<open>foo\<close>, with no anchor in the output.
\<close>

theorem link_dummy_host_collision:
  "isMarkdownFileLink exampleUrlHost ''http://dummy/foo.md'' \<and>
   render exampleMarked exampleUrlHost Inline
     (Link ''http://dummy/foo.md'' None [Text ''x'' None]) =
     Inr ''<ac:link><ri:page ri:content-title=\"foo\" /><ac:link-body>x</ac:link-body></ac:link>'' \<and>
   \<not> contains ''<a href=''
     ''<ac:link><ri:page ri:content-title=\"foo\" /><ac:link-body>x</ac:link-body></ac:link>''"
  by code_simp



end
